theory Spec2Isabelle
  imports Main
begin

section \<open>The \<open>nest\<close> combinator of recompose\<close>

text \<open>
  The development embeds \<^verbatim>\<open>src/packages/recompose/nest.js\<close>:
  \<^verbatim>\<open>
  const nest = (...Components) => {
    const factories = Components.map(createEagerFactory)
    const Nest = ({ ...props, children }) =>
      factories.reduceRight((child, factory) => factory(props, child), children)

    if (process.env.NODE_ENV !== 'production') {
      const displayNames = Components.map(getDisplayName)
      Nest.displayName = `nest(${displayNames.join(', ')})`
    }

    return Nest
  }
  \<close>
\<close>

subsection \<open>Values, objects and factories\<close>

text \<open>
  A JavaScript value is either \<^verbatim>\<open>undefined\<close> or some other value; the combinator never
  looks inside a value, so everything that is not \<^verbatim>\<open>undefined\<close> stays abstract.
\<close>

datatype 'a val = Undefined | Val 'a

text \<open>
  An object is a finite map from property names to values. Reading a property that the
  object does not have gives \<^verbatim>\<open>undefined\<close>.
\<close>

type_synonym 'a object = "string \<rightharpoonup> 'a val"

definition get_prop :: "'a object \<Rightarrow> string \<Rightarrow> 'a val" where
  "get_prop obj key = (case obj key of None \<Rightarrow> Undefined | Some v \<Rightarrow> v)"

text \<open>
  A factory is a callable of two arguments, \<^verbatim>\<open>(props, children)\<close>. A factory that is a
  function in the mathematical sense has the first type. A JavaScript function may also
  keep state between its calls; a factory of the second type reads and writes a store
  \<open>'w\<close>.
\<close>

type_synonym 'a factory = "'a object \<Rightarrow> 'a val \<Rightarrow> 'a val"

type_synonym ('a, 'w) stateful_factory = "'a object \<Rightarrow> 'a val \<Rightarrow> 'w \<Rightarrow> 'a val \<times> 'w"

subsection \<open>Calls to other functions, as a trace\<close>

text \<open>
  \<^verbatim>\<open>nest\<close> and \<^verbatim>\<open>Nest\<close> call three kinds of functions that are not theirs: the two imported
  helpers and the factories. Each such call is recorded, in program order, in a trace
  that is passed along; \<open>'c\<close> is the type of the inputs of \<^verbatim>\<open>nest\<close>.
\<close>

datatype ('c, 'a) event =
    CreateEagerFactory 'c
  | GetDisplayName 'c
  | FactoryCall "'a factory" "'a object" "'a val"

type_synonym ('c, 'a) trace = "('c, 'a) event list"

text \<open>
  The two helpers are imported from files that are not part of the sources at hand, so
  they are parameters of the model: \<open>cef\<close> stands for \<^verbatim>\<open>createEagerFactory\<close> and \<open>gdn\<close> for
  \<^verbatim>\<open>getDisplayName\<close>, each a function of one input (\<^verbatim>\<open>map\<close> also passes the index and the array,
  which a function of one parameter does not see). What \<open>cef\<close> returns is a factory of
  either kind, \<open>'f\<close>.
\<close>

definition call_createEagerFactory ::
  "('c \<Rightarrow> 'f) \<Rightarrow> 'c \<Rightarrow> ('c, 'a) trace \<Rightarrow> 'f \<times> ('c, 'a) trace" where
  "call_createEagerFactory cef C t = (cef C, t @ [CreateEagerFactory C])"

definition call_getDisplayName ::
  "('c \<Rightarrow> string) \<Rightarrow> 'c \<Rightarrow> ('c, 'a) trace \<Rightarrow> string \<times> ('c, 'a) trace" where
  "call_getDisplayName gdn C t = (gdn C, t @ [GetDisplayName C])"

definition call_factory ::
  "'a factory \<Rightarrow> 'a object \<Rightarrow> 'a val \<Rightarrow> ('c, 'a) trace \<Rightarrow> 'a val \<times> ('c, 'a) trace" where
  "call_factory factory props child t =
     (factory props child, t @ [FactoryCall factory props child])"

subsection \<open>Array methods\<close>

text \<open>\<^verbatim>\<open>Array.prototype.map\<close>: the callback runs on the elements from first to last.\<close>

fun array_map :: "('x \<Rightarrow> 't \<Rightarrow> 'y \<times> 't) \<Rightarrow> 'x list \<Rightarrow> 't \<Rightarrow> 'y list \<times> 't" where
  "array_map f [] t = ([], t)"
| "array_map f (x # xs) t =
     (let (y, t1) = f x t;
          (ys, t2) = array_map f xs t1
      in (y # ys, t2))"

text \<open>
  \<^verbatim>\<open>Array.prototype.reduceRight\<close> with an initial value: the index \<open>k\<close> runs from
  \<open>length - 1\<close> down to \<open>0\<close>, and each step replaces the accumulator by the callback's
  result at \<open>(accumulator, element k)\<close>; the callback of \<^verbatim>\<open>Nest\<close> takes these two arguments
  only. \<open>reduceRight_from\<close> has the number of elements still to visit as its counter.
\<close>

fun reduceRight_from ::
  "('b \<Rightarrow> 'x \<Rightarrow> 't \<Rightarrow> 'b \<times> 't) \<Rightarrow> 'x list \<Rightarrow> nat \<Rightarrow> 'b \<Rightarrow> 't \<Rightarrow> 'b \<times> 't" where
  "reduceRight_from cb xs 0 acc t = (acc, t)"
| "reduceRight_from cb xs (Suc k) acc t =
     (let (acc', t') = cb acc (xs ! k) t
      in reduceRight_from cb xs k acc' t')"

definition reduceRight ::
  "('b \<Rightarrow> 'x \<Rightarrow> 't \<Rightarrow> 'b \<times> 't) \<Rightarrow> 'x list \<Rightarrow> 'b \<Rightarrow> 't \<Rightarrow> 'b \<times> 't" where
  "reduceRight cb xs init t = reduceRight_from cb xs (length xs) init t"

text \<open>
  \<^verbatim>\<open>Array.prototype.join\<close> on an array of strings: the result starts empty, and for each
  index \<open>k\<close> from \<open>0\<close> the separator is appended when \<open>k > 0\<close>, then the element.
\<close>

definition join :: "string \<Rightarrow> string list \<Rightarrow> string" where
  "join sep xs =
     fold (\<lambda>(k, x) R. (if 0 < k then R @ sep else R) @ x) (enumerate 0 xs) ''''"

subsection \<open>The function object \<open>Nest\<close> and its constructor \<open>nest\<close>\<close>

text \<open>
  The function that \<^verbatim>\<open>nest\<close> returns is a closure over \<^verbatim>\<open>factories\<close> that may carry a
  \<^verbatim>\<open>displayName\<close> property; \<open>None\<close> is a property that was never assigned.
\<close>

record 'f NestFn =
  factories :: "'f list"
  displayName :: "string option"

text \<open>
  Calling the closure with one argument object. The parameter pattern is
  \<^verbatim>\<open>{ ...props, children }\<close>, with the rest element first. A rest element leaves out the
  properties that the pattern names before it, and here it names none: \<^verbatim>\<open>props\<close> is a copy
  of the whole argument, its \<^verbatim>\<open>children\<close> property included, and \<^verbatim>\<open>children\<close> is the argument's
  property of that name. The body is the \<^verbatim>\<open>reduceRight\<close> over the captured factories.
\<close>

definition Nest ::
  "'a factory NestFn \<Rightarrow> 'a object \<Rightarrow> ('c, 'a) trace \<Rightarrow> 'a val \<times> ('c, 'a) trace" where
  "Nest self arg t =
     (let props = arg;
          children = get_prop arg ''children''
      in reduceRight (\<lambda>child factory. call_factory factory props child)
           (factories self) children t)"

text \<open>
  The same call when the factories keep state. The store goes through the factory calls
  in the order of the reduction. The function object itself is returned as it is after the
  call: \<^verbatim>\<open>reduceRight\<close> does not write to the array it reads, and the body assigns nothing.
\<close>

definition Nest_stateful ::
  "('a, 'w) stateful_factory NestFn \<Rightarrow> 'a object \<Rightarrow> 'w \<Rightarrow>
   'a val \<times> ('a, 'w) stateful_factory NestFn \<times> 'w" where
  "Nest_stateful self arg w =
     (let props = arg;
          children = get_prop arg ''children'';
          (result, w') = reduceRight (\<lambda>child factory. factory props child)
                           (factories self) children w
      in (result, self, w'))"

text \<open>
  \<^verbatim>\<open>nest\<close> itself. \<open>NODE_ENV\<close> is the value of \<^verbatim>\<open>process.env.NODE_ENV\<close>, \<open>None\<close> when the
  variable is not set.
\<close>

definition nest ::
  "('c \<Rightarrow> 'f) \<Rightarrow> ('c \<Rightarrow> string) \<Rightarrow> string option \<Rightarrow> 'c list \<Rightarrow>
   ('c, 'a) trace \<Rightarrow> 'f NestFn \<times> ('c, 'a) trace" where
  "nest cef gdn NODE_ENV Components t =
     (let (fs, t1) = array_map (call_createEagerFactory cef) Components t;
          Nest0 = \<lparr>factories = fs, displayName = None\<rparr>
      in if NODE_ENV \<noteq> Some ''production'' then
           (let (displayNames, t2) = array_map (call_getDisplayName gdn) Components t1
            in (Nest0\<lparr>displayName := Some (''nest('' @ join '', '' displayNames @ '')'')\<rparr>, t2))
         else (Nest0, t1))"

text \<open>Two calls of the same function object with the same argument, one after the other.\<close>

definition invoke_twice ::
  "('a, 'w) stateful_factory NestFn \<Rightarrow> 'a object \<Rightarrow> 'w \<Rightarrow>
   ('a val \<times> 'a val) \<times> ('a, 'w) stateful_factory NestFn \<times> 'w" where
  "invoke_twice self arg w =
     (let (r1, self1, w1) = Nest_stateful self arg w;
          (r2, self2, w2) = Nest_stateful self1 arg w1
      in ((r1, r2), self2, w2))"

subsection \<open>What the specification describes\<close>

text \<open>
  The specification's nesting: the first factory outermost, the last innermost and the
  children at the core, every factory applied to one and the same object \<open>props\<close>.
\<close>

fun nested :: "'a factory list \<Rightarrow> 'a object \<Rightarrow> 'a val \<Rightarrow> 'a val" where
  "nested [] props X = X"
| "nested (F # Fs) props X = F props (nested Fs props X)"

text \<open>
  The factory calls of that nesting in the order in which a right-to-left reduction makes
  them: the last factory first, on the children, then each factory on what its right
  neighbour returned.
\<close>

fun nested_calls :: "'a factory list \<Rightarrow> 'a object \<Rightarrow> 'a val \<Rightarrow> ('c, 'a) trace" where
  "nested_calls [] props X = []"
| "nested_calls (F # Fs) props X =
     nested_calls Fs props X @ [FactoryCall F props (nested Fs props X)]"

text \<open>The names of a list written one after the other with a separator in between.\<close>

fun separated :: "string \<Rightarrow> string list \<Rightarrow> string" where
  "separated sep [] = ''''"
| "separated sep [x] = x"
| "separated sep (x # y # ys) = x @ sep @ separated sep (y # ys)"

text \<open>
  A factory that keeps no state: it leaves the store as it is and its result does not
  depend on the store. \<open>pure_factory\<close> makes such a factory of a function.
\<close>

definition stateless :: "('a, 'w) stateful_factory \<Rightarrow> bool" where
  "stateless F \<longleftrightarrow>
     (\<forall>p c w. snd (F p c w) = w) \<and> (\<forall>p c w w'. fst (F p c w) = fst (F p c w'))"

definition pure_factory :: "'a factory \<Rightarrow> ('a, 'w) stateful_factory" where
  "pure_factory f props child w = (f props child, w)"

subsection \<open>Reading a trace\<close>

text \<open>The inputs that \<^verbatim>\<open>createEagerFactory\<close> was applied to, in order.\<close>

fun normalized :: "('c, 'a) trace \<Rightarrow> 'c list" where
  "normalized [] = []"
| "normalized (CreateEagerFactory C # t) = C # normalized t"
| "normalized (e # t) = normalized t"

text \<open>The first arguments that the factories were called with, in order.\<close>

fun props_seen :: "('c, 'a) trace \<Rightarrow> 'a object list" where
  "props_seen [] = []"
| "props_seen (FactoryCall f p c # t) = p # props_seen t"
| "props_seen (e # t) = props_seen t"

text \<open>The second arguments that the factories were called with, in order.\<close>

fun children_seen :: "('c, 'a) trace \<Rightarrow> 'a val list" where
  "children_seen [] = []"
| "children_seen (FactoryCall f p c # t) = c # children_seen t"
| "children_seen (e # t) = children_seen t"

subsection \<open>Concrete inputs\<close>

text \<open>
  Modelled from the spec: \<^verbatim>\<open>createEagerFactory.js\<close> is imported by \<^verbatim>\<open>nest.js\<close> but is not among
  the sources. The specification (4.1 and 9) describes an input as one of two shapes, a
  renderer of one argument or a factory of two, and the normalizer as leaving a factory
  as it is and adapting a renderer so that the children are passed to it inside the props,
  under the key \<^verbatim>\<open>children\<close>. The theorems below hold for every normalizer; this one
  serves for the concrete instances.
\<close>

datatype 'a ComponentLike =
    Renderer "'a object \<Rightarrow> 'a val"
  | Factory "'a factory"

fun createEagerFactory :: "'a ComponentLike \<Rightarrow> 'a factory" where
  "createEagerFactory (Factory f) = f"
| "createEagerFactory (Renderer r) = (\<lambda>props children. r (props(''children'' \<mapsto> children)))"

text \<open>
  Sample components over string values: a factory that wraps its child in a tag, and a
  factory that returns the \<^verbatim>\<open>children\<close> property of the props it is given. In the
  instances a component comes paired with its name.
\<close>

type_synonym named = "string \<times> string ComponentLike"

definition text_of :: "string val \<Rightarrow> string" where
  "text_of v = (case v of Undefined \<Rightarrow> ''undefined'' | Val s \<Rightarrow> s)"

definition wrapper :: "string \<Rightarrow> string ComponentLike" where
  "wrapper tag =
     Factory (\<lambda>props child. Val (''<'' @ tag @ ''>'' @ text_of child @ ''</'' @ tag @ ''>''))"

definition children_prop :: "string ComponentLike" where
  "children_prop = Factory (\<lambda>props child. get_prop props ''children'')"

text \<open>
  A factory with state, as in \<^verbatim>\<open>let n = 0; const Counter = (props, children) => n++\<close>: the
  store is the counter, and each call returns its value and increments it.
\<close>

definition counting :: "(nat, nat) stateful_factory" where
  "counting props child n = (Val n, Suc n)"

section \<open>Properties\<close>

subsection \<open>The array methods\<close>

lemma array_map_cef:
  "array_map (call_createEagerFactory cef) Cs t = (map cef Cs, t @ map CreateEagerFactory Cs)"
  by (induction Cs arbitrary: t) (simp_all add: call_createEagerFactory_def)

lemma array_map_gdn:
  "array_map (call_getDisplayName gdn) Cs t = (map gdn Cs, t @ map GetDisplayName Cs)"
  by (induction Cs arbitrary: t) (simp_all add: call_getDisplayName_def)

lemma snd_array_map_Cons:
  "snd (array_map f (x # xs) t) = snd (array_map f xs (snd (f x t)))"
  by (simp add: split_beta)

text \<open>Elements beyond the counter are never read.\<close>

lemma reduceRight_from_append:
  "k \<le> length xs \<Longrightarrow> reduceRight_from cb (xs @ ys) k acc t = reduceRight_from cb xs k acc t"
  by (induction k arbitrary: acc t) (simp_all add: nth_append split: prod.splits)

text \<open>The last element is visited first.\<close>

lemma reduceRight_snoc:
  "reduceRight cb (xs @ [x]) init t =
     (let (acc, t') = cb init x t in reduceRight cb xs acc t')"
  by (simp add: reduceRight_def reduceRight_from_append split: prod.splits)

lemma nested_snoc: "nested (Fs @ [F]) props X = nested Fs props (F props X)"
  by (induction Fs) simp_all

lemma nested_calls_snoc:
  "nested_calls (Fs @ [F]) props X =
     FactoryCall F props X # nested_calls Fs props (F props X)"
  by (induction Fs) (simp_all add: nested_snoc)

lemma reduceRight_factories:
  "reduceRight (\<lambda>child factory. call_factory factory props child) Fs X t =
     (nested Fs props X, t @ nested_calls Fs props X)"
proof (induction Fs arbitrary: X t rule: rev_induct)
  case Nil
  show ?case by (simp add: reduceRight_def)
next
  case (snoc F Fs)
  have step: "call_factory F props X t = (F props X, t @ [FactoryCall F props X])"
    by (simp add: call_factory_def)
  show ?case
    by (simp add: reduceRight_snoc step snoc.IH nested_snoc nested_calls_snoc)
qed

lemma join_fold:
  "0 < n \<Longrightarrow>
   fold (\<lambda>(k, x) R. (if 0 < k then R @ sep else R) @ x) (enumerate n xs) R0 =
     R0 @ concat (map (\<lambda>x. sep @ x) xs)"
  by (induction xs arbitrary: n R0) simp_all

lemma join_Nil: "join sep [] = ''''"
  by (simp add: join_def)

lemma join_Cons: "join sep (x # xs) = x @ concat (map (\<lambda>y. sep @ y) xs)"
  by (simp add: join_def join_fold)

lemma join_separated: "join sep xs = separated sep xs"
  by (induction sep xs rule: separated.induct) (simp_all add: join_Nil join_Cons)

subsection \<open>Construction and invocation\<close>

lemma nest_factories: "factories (fst (nest cef gdn env Cs t)) = map cef Cs"
  by (simp add: nest_def array_map_cef array_map_gdn Let_def)

lemma nest_displayName:
  "displayName (fst (nest cef gdn env Cs t)) =
     (if env \<noteq> Some ''production''
      then Some (''nest('' @ join '', '' (map gdn Cs) @ '')'') else None)"
  by (simp add: nest_def array_map_cef array_map_gdn Let_def)

lemma nest_trace:
  "snd (nest cef gdn env Cs t) =
     t @ map CreateEagerFactory Cs @
     (if env \<noteq> Some ''production'' then map GetDisplayName Cs else [])"
  by (simp add: nest_def array_map_cef array_map_gdn Let_def)

lemma Nest_eq:
  "Nest N arg t =
     (nested (factories N) arg (get_prop arg ''children''),
      t @ nested_calls (factories N) arg (get_prop arg ''children''))"
  by (simp add: Nest_def reduceRight_factories Let_def)

lemma normalized_append: "normalized (t @ u) = normalized t @ normalized u"
  by (induction t rule: normalized.induct) simp_all

lemma normalized_cef: "normalized (map CreateEagerFactory Cs) = Cs"
  by (induction Cs) simp_all

lemma normalized_gdn: "normalized (map GetDisplayName Cs) = []"
  by (induction Cs) simp_all

lemma normalized_nested_calls: "normalized (nested_calls Fs props X) = []"
  by (induction Fs) (simp_all add: normalized_append)

lemma normalized_invocations:
  "normalized (snd (array_map (Nest N) args t)) = normalized t"
proof (induction args arbitrary: t)
  case Nil
  show ?case by simp
next
  case (Cons a args)
  show ?case
    unfolding snd_array_map_Cons Cons.IH
    by (simp add: Nest_eq normalized_append normalized_nested_calls)
qed

lemma props_seen_append: "props_seen (t @ u) = props_seen t @ props_seen u"
  by (induction t rule: props_seen.induct) simp_all

lemma props_seen_nested_calls:
  "props_seen (nested_calls Fs props X) = replicate (length Fs) props"
  by (induction Fs) (simp_all add: props_seen_append replicate_append_same)

lemma children_seen_nested_calls_snoc:
  "hd (children_seen (nested_calls (Fs @ [F]) props X)) = X"
  by (simp add: nested_calls_snoc)

subsection \<open>Factories with state\<close>

lemma stateless_apply: "stateless F \<Longrightarrow> F p c w = (fst (F p c w'), w)"
  by (metis prod.collapse stateless_def)

lemma stateless_pure_factory: "stateless (pure_factory f)"
  by (simp add: stateless_def pure_factory_def)

text \<open>Stateless factories leave the store alone, and the result does not depend on it.\<close>

lemma reduceRight_stateless:
  "\<forall>F \<in> set Fs. stateless F \<Longrightarrow>
   reduceRight (\<lambda>child factory. factory props child) Fs X w =
     (fst (reduceRight (\<lambda>child factory. factory props child) Fs X w'), w)"
proof (induction Fs arbitrary: X w w' rule: rev_induct)
  case Nil
  show ?case by (simp add: reduceRight_def)
next
  case (snoc F Fs)
  from snoc.prems have F: "stateless F" and Fs: "\<forall>G \<in> set Fs. stateless G"
    by simp_all
  have at_w: "F props X w = (fst (F props X w'), w)"
    by (rule stateless_apply [OF F])
  have at_w': "F props X w' = (fst (F props X w'), w')"
    by (rule stateless_apply [OF F])
  show ?case
    unfolding reduceRight_snoc at_w
    by (subst (2) at_w') (simp add: snoc.IH [OF Fs, of _ w w'])
qed

text \<open>On functions the call with a store is the call with a trace.\<close>

lemma reduceRight_pure:
  "reduceRight (\<lambda>child factory. factory props child) (map pure_factory Fs) X w =
     (nested Fs props X, w)"
proof (induction Fs arbitrary: X rule: rev_induct)
  case Nil
  show ?case by (simp add: reduceRight_def)
next
  case (snoc F Fs)
  show ?case
    by (simp add: reduceRight_snoc pure_factory_def [of F] snoc.IH nested_snoc)
qed

lemma Nest_stateful_pure:
  "fst (Nest_stateful \<lparr>factories = map pure_factory Fs, displayName = d\<rparr> arg w) =
     fst (Nest \<lparr>factories = Fs, displayName = d\<rparr> arg t)"
  by (simp add: Nest_stateful_def Nest_eq reduceRight_pure)

lemma Nest_stateful_self: "fst (snd (Nest_stateful N arg w)) = N"
  by (simp add: Nest_stateful_def split_beta Let_def)

lemma Nest_stateful_stateless:
  "\<forall>F \<in> set (factories N). stateless F \<Longrightarrow>
   Nest_stateful N arg w = (fst (Nest_stateful N arg w'), N, w)"
  using reduceRight_stateless [of "factories N" arg "get_prop arg ''children''" w w']
  by (simp add: Nest_stateful_def split_beta Let_def)

section \<open>The claims\<close>

subsection \<open>Order of nesting\<close>

text \<open>
  C1. Let \<open>F\<^sub>i = cef C\<^sub>i\<close>. Calling the function returned by \<open>nest(C\<^sub>1, ..., C\<^sub>n)\<close> with a props
  object whose \<^verbatim>\<open>children\<close> property is \<open>X\<close> is a fold from the right: the accumulator starts
  at \<open>X\<close>, the factories are called in the order \<open>F\<^sub>n, ..., F\<^sub>1\<close>, each on the props object of
  the call and on the accumulator, and its result is the next accumulator. The value
  returned is therefore \<open>F\<^sub>1 props (... (F\<^sub>n props X))\<close>: \<open>F\<^sub>1\<close> outermost, \<open>F\<^sub>n\<close> innermost, \<open>X\<close>
  at the core.
\<close>

theorem nest_right_to_left_fold:
  assumes "arg ''children'' = Some X"
  shows "Nest (fst (nest cef gdn env Cs t0)) arg t =
           (nested (map cef Cs) arg X, t @ nested_calls (map cef Cs) arg X)"
  using assms by (simp add: Nest_eq nest_factories get_prop_def)

text \<open>
  With two tagging factories \<open>A\<close> and \<open>B\<close> and the child \<open>x\<close>, \<open>A\<close> ends up outside. With \<open>P\<close>,
  the factory that returns the \<^verbatim>\<open>children\<close> property of its props, outside of \<open>B\<close>, the result is
  \<open>x\<close>: the props that \<open>P\<close> is given are those of the call.
\<close>

theorem nest_right_to_left_fold_witness:
  "[''children'' \<mapsto> Val ''x''] ''children'' = Some (Val ''x'') \<and>
   fst (Nest (fst (nest (createEagerFactory \<circ> snd) fst None
                    [(''A'', wrapper ''A''), (''B'', wrapper ''B'')]
                    ([] :: (named, string) trace)))
          [''children'' \<mapsto> Val ''x''] ([] :: (named, string) trace)) = Val ''<A><B>x</B></A>'' \<and>
   fst (Nest (fst (nest (createEagerFactory \<circ> snd) fst None
                    [(''P'', children_prop), (''B'', wrapper ''B'')]
                    ([] :: (named, string) trace)))
          [''children'' \<mapsto> Val ''x''] ([] :: (named, string) trace)) = Val ''x''"
  using
    nest_right_to_left_fold [of "[''children'' \<mapsto> Val ''x'']" "Val ''x''"
      "createEagerFactory \<circ> snd" fst None "[(''A'', wrapper ''A''), (''B'', wrapper ''B'')]"
      "[] :: (named, string) trace" "[] :: (named, string) trace"]
    nest_right_to_left_fold [of "[''children'' \<mapsto> Val ''x'']" "Val ''x''"
      "createEagerFactory \<circ> snd" fst None "[(''P'', children_prop), (''B'', wrapper ''B'')]"
      "[] :: (named, string) trace" "[] :: (named, string) trace"]
  by (simp add: wrapper_def children_prop_def text_of_def get_prop_def)

subsection \<open>The props that the factories receive\<close>

text \<open>
  C2. In one invocation every one of the \<open>n\<close> factory calls receives the same props, at
  every level of the nesting, and these props are, property by property, the props that
  the nested factory was invoked with: nothing is removed from them and nothing is
  changed.
\<close>

theorem nest_same_props_every_level:
  "props_seen (snd (Nest (fst (nest cef gdn env Cs t0)) arg [])) = replicate (length Cs) arg"
  by (simp add: Nest_eq nest_factories props_seen_nested_calls)

text \<open>Invoked with \<^verbatim>\<open>{id: '7', children: 'x'}\<close>, both factories of \<open>nest(A, B)\<close> see that object.\<close>

theorem nest_same_props_every_level_witness:
  "props_seen (snd (Nest (fst (nest (createEagerFactory \<circ> snd) fst None
                    [(''A'', wrapper ''A''), (''B'', wrapper ''B'')]
                    ([] :: (named, string) trace)))
          [''id'' \<mapsto> Val ''7'', ''children'' \<mapsto> Val ''x''] ([] :: (named, string) trace)))
     = [[''id'' \<mapsto> Val ''7'', ''children'' \<mapsto> Val ''x''],
        [''id'' \<mapsto> Val ''7'', ''children'' \<mapsto> Val ''x'']]"
  using nest_same_props_every_level [of "createEagerFactory \<circ> snd" fst None
      "[(''A'', wrapper ''A''), (''B'', wrapper ''B'')]" "[] :: (named, string) trace"
      "[''id'' \<mapsto> Val ''7'', ''children'' \<mapsto> Val ''x'']", where ?'b = named]
  by (simp add: numeral_2_eq_2)

text \<open>
  C9, as stated, fails. The claim says that the props handed to the factories are the
  props of the call with the \<^verbatim>\<open>children\<close> key removed. Invoked with
  \<^verbatim>\<open>{id: '7', children: 'x'}\<close>, the only factory of \<open>nest(A)\<close> is called with that very object,
  whose \<^verbatim>\<open>children\<close> property is still \<open>x\<close>.
\<close>

theorem Nest_props_without_children_counterexample:
  "props_seen (snd (Nest (fst (nest (createEagerFactory \<circ> snd) fst None
                    [(''A'', wrapper ''A'')] ([] :: (named, string) trace)))
          [''id'' \<mapsto> Val ''7'', ''children'' \<mapsto> Val ''x''] ([] :: (named, string) trace)))
     = [[''id'' \<mapsto> Val ''7'', ''children'' \<mapsto> Val ''x'']]
   \<and> [''id'' \<mapsto> Val ''7'', ''children'' \<mapsto> Val ''x''] ''children'' = Some (Val ''x'')"
  by (simp add: Nest_eq nest_factories)

text \<open>
  C9, amended. Every props object that a factory is called with during an invocation is
  the argument of the invocation, the \<^verbatim>\<open>children\<close> property included: each factory observes
  all props of the original call. The \<^verbatim>\<open>children\<close> of the argument goes, in addition, to the
  first factory call as its second argument, the seed of the fold.
\<close>

theorem Nest_props_keep_children:
  assumes "p \<in> set (props_seen (snd (Nest (fst (nest cef gdn env Cs t0)) arg [])))"
  shows "p = arg \<and> p ''children'' = arg ''children''
         \<and> hd (children_seen (snd (Nest (fst (nest cef gdn env Cs t0)) arg []))) =
             get_prop arg ''children''"
proof -
  from assms have p: "p = arg" and "Cs \<noteq> []"
    by (auto simp: Nest_eq nest_factories props_seen_nested_calls)
  then obtain Cs' C where "Cs = Cs' @ [C]"
    by (cases Cs rule: rev_cases) auto
  then have "hd (children_seen (snd (Nest (fst (nest cef gdn env Cs t0)) arg []))) =
             get_prop arg ''children''"
    by (simp add: Nest_eq nest_factories children_seen_nested_calls_snoc)
  with p show ?thesis by simp
qed

theorem Nest_props_keep_children_witness:
  "[''id'' \<mapsto> Val ''7'', ''children'' \<mapsto> Val ''x'']
     \<in> set (props_seen (snd (Nest (fst (nest (createEagerFactory \<circ> snd) fst None
                    [(''A'', wrapper ''A''), (''B'', wrapper ''B'')]
                    ([] :: (named, string) trace)))
          [''id'' \<mapsto> Val ''7'', ''children'' \<mapsto> Val ''x''] ([] :: (named, string) trace))))
   \<and> [''id'' \<mapsto> Val ''7'', ''children'' \<mapsto> Val ''x''] ''children'' = Some (Val ''x'')
   \<and> hd (children_seen (snd (Nest (fst (nest (createEagerFactory \<circ> snd) fst None
                    [(''A'', wrapper ''A''), (''B'', wrapper ''B'')]
                    ([] :: (named, string) trace)))
          [''id'' \<mapsto> Val ''7'', ''children'' \<mapsto> Val ''x''] ([] :: (named, string) trace))))
       = Val ''x''"
proof -
  have mem: "[''id'' \<mapsto> Val ''7'', ''children'' \<mapsto> Val ''x'']
     \<in> set (props_seen (snd (Nest (fst (nest (createEagerFactory \<circ> snd) fst None
                    [(''A'', wrapper ''A''), (''B'', wrapper ''B'')]
                    ([] :: (named, string) trace)))
          [''id'' \<mapsto> Val ''7'', ''children'' \<mapsto> Val ''x''] ([] :: (named, string) trace))))"
    by (simp add: Nest_eq nest_factories)
  from Nest_props_keep_children [OF mem] mem show ?thesis
    by (simp add: get_prop_def)
qed

subsection \<open>No inputs, one input\<close>

text \<open>
  C3. The function returned by \<open>nest()\<close>, called with an argument whose \<^verbatim>\<open>children\<close> property
  is \<open>X\<close>, returns \<open>X\<close> itself, and calls nothing on the way.
\<close>

theorem nest_empty_is_identity:
  assumes "arg ''children'' = Some X"
  shows "Nest (fst (nest cef gdn env [] t0)) arg t = (X, t)"
  using assms by (simp add: Nest_eq nest_factories get_prop_def)

theorem nest_empty_is_identity_witness:
  "[''children'' \<mapsto> Val ''x''] ''children'' = Some (Val ''x'') \<and>
   Nest (fst (nest (createEagerFactory \<circ> snd) fst None [] ([] :: (named, string) trace)))
     [''children'' \<mapsto> Val ''x''] ([] :: (named, string) trace) = (Val ''x'', [])"
  using nest_empty_is_identity [of "[''children'' \<mapsto> Val ''x'']" "Val ''x''"
      "createEagerFactory \<circ> snd" fst None "[] :: (named, string) trace"
      "[] :: (named, string) trace"]
  by simp

text \<open>
  C4. For every input \<open>A\<close> and every props object \<open>p\<close>, \<open>nest(A)(p)\<close> returns what the
  normalized factory of \<open>A\<close> returns at the two arguments \<open>p\<close> and \<open>p.children\<close>.
\<close>

theorem nest_single:
  "fst (Nest (fst (nest cef gdn env [A] t0)) p t) = cef A p (get_prop p ''children'')"
  by (simp add: Nest_eq nest_factories)

text \<open>
  For the factory that returns the \<^verbatim>\<open>children\<close> property of its props and the object
  \<^verbatim>\<open>{children: 'x'}\<close>, both sides are \<open>x\<close>.
\<close>

theorem nest_single_witness:
  "fst (Nest (fst (nest (createEagerFactory \<circ> snd) fst None [(''P'', children_prop)]
                    ([] :: (named, string) trace)))
          [''children'' \<mapsto> Val ''x''] ([] :: (named, string) trace)) = Val ''x''
   \<and> (createEagerFactory \<circ> snd) (''P'', children_prop) [''children'' \<mapsto> Val ''x'']
        (get_prop [''children'' \<mapsto> Val ''x''] ''children'') = Val ''x''"
  using nest_single [of "createEagerFactory \<circ> snd" fst None "(''P'', children_prop)"
      "[] :: (named, string) trace" "[''children'' \<mapsto> Val ''x'']" "[] :: (named, string) trace"]
  by (simp add: children_prop_def get_prop_def)

subsection \<open>When the inputs are normalized\<close>

text \<open>
  C5. \<open>nest(C\<^sub>1, ..., C\<^sub>n)\<close> applies \<^verbatim>\<open>createEagerFactory\<close> to \<open>C\<^sub>1, ..., C\<^sub>n\<close>, once each and in
  this order, while it constructs the nested factory, which keeps the results; invoking
  the nested factory, on any list of arguments one after the other, applies
  \<^verbatim>\<open>createEagerFactory\<close> to nothing more.
\<close>

theorem normalization_is_eager:
  "normalized (snd (nest cef gdn env Cs t0)) = normalized t0 @ Cs
   \<and> factories (fst (nest cef gdn env Cs t0)) = map cef Cs
   \<and> normalized (snd (array_map (Nest (fst (nest cef gdn env Cs t0))) args
                        (snd (nest cef gdn env Cs t0)))) = normalized t0 @ Cs"
  by (simp add: normalized_invocations nest_trace nest_factories normalized_append
      normalized_cef normalized_gdn)

subsection \<open>Determinism\<close>

text \<open>
  C7, as stated, fails. The claim holds for every sequence of inputs, and an input may be
  a function that keeps state. With the counting factory as the only input, two
  invocations of \<open>nest(Counter)\<close> with the same argument return \<open>0\<close> and then \<open>1\<close>.
\<close>

theorem Nest_twice_counterexample:
  "fst (invoke_twice (fst (nest snd fst None [(''Counter'', counting)] [])) Map.empty 0)
     = (Val 0, Val 1)
   \<and> Val (0::nat) \<noteq> Val 1"
  by (simp add: invoke_twice_def Nest_stateful_def nest_factories reduceRight_def
      counting_def get_prop_def)

text \<open>
  C7, amended. A nested factory has no state of its own: two invocations leave the
  function object as \<open>nest\<close> built it, whatever the inputs are. When the normalized
  factories of the inputs keep no state, two invocations with the same argument return the
  same value, which does not depend on the store, and leave the store as it was.
\<close>

theorem Nest_no_state_of_its_own:
  "fst (snd (invoke_twice (fst (nest cef gdn env Cs t0)) arg w)) = fst (nest cef gdn env Cs t0)
   \<and> ((\<forall>C \<in> set Cs. stateless (cef C)) \<longrightarrow>
        invoke_twice (fst (nest cef gdn env Cs t0)) arg w =
          ((fst (Nest_stateful (fst (nest cef gdn env Cs t0)) arg w'),
            fst (Nest_stateful (fst (nest cef gdn env Cs t0)) arg w')),
           fst (nest cef gdn env Cs t0), w))"
proof
  show "fst (snd (invoke_twice (fst (nest cef gdn env Cs t0)) arg w)) =
          fst (nest cef gdn env Cs t0)"
    by (simp add: invoke_twice_def split_beta Nest_stateful_self)
next
  show "(\<forall>C \<in> set Cs. stateless (cef C)) \<longrightarrow>
        invoke_twice (fst (nest cef gdn env Cs t0)) arg w =
          ((fst (Nest_stateful (fst (nest cef gdn env Cs t0)) arg w'),
            fst (Nest_stateful (fst (nest cef gdn env Cs t0)) arg w')),
           fst (nest cef gdn env Cs t0), w)"
  proof
    assume "\<forall>C \<in> set Cs. stateless (cef C)"
    then have all: "\<forall>F \<in> set (factories (fst (nest cef gdn env Cs t0))). stateless F"
      by (simp add: nest_factories)
    have once: "Nest_stateful (fst (nest cef gdn env Cs t0)) arg w =
        (fst (Nest_stateful (fst (nest cef gdn env Cs t0)) arg w'),
         fst (nest cef gdn env Cs t0), w)"
      by (rule Nest_stateful_stateless [OF all])
    show "invoke_twice (fst (nest cef gdn env Cs t0)) arg w =
          ((fst (Nest_stateful (fst (nest cef gdn env Cs t0)) arg w'),
            fst (Nest_stateful (fst (nest cef gdn env Cs t0)) arg w')),
           fst (nest cef gdn env Cs t0), w)"
      unfolding invoke_twice_def by (simp add: once)
  qed
qed

text \<open>Two tagging factories, which keep no state, over a store that holds a number.\<close>

theorem Nest_no_state_of_its_own_witness:
  "stateless (snd (''A'', pure_factory (createEagerFactory (wrapper ''A'')) :: (string, nat) stateful_factory))
   \<and> stateless (snd (''B'', pure_factory (createEagerFactory (wrapper ''B'')) :: (string, nat) stateful_factory))
   \<and> fst (invoke_twice (fst (nest snd fst None
                [(''A'', pure_factory (createEagerFactory (wrapper ''A''))),
                 (''B'', pure_factory (createEagerFactory (wrapper ''B'')))]
                ([] :: (string \<times> (string, nat) stateful_factory, string) trace)))
          [''children'' \<mapsto> Val ''x''] (5::nat))
       = (Val ''<A><B>x</B></A>'', Val ''<A><B>x</B></A>'')
   \<and> snd (snd (invoke_twice (fst (nest snd fst None
                [(''A'', pure_factory (createEagerFactory (wrapper ''A''))),
                 (''B'', pure_factory (createEagerFactory (wrapper ''B'')))]
                ([] :: (string \<times> (string, nat) stateful_factory, string) trace)))
          [''children'' \<mapsto> Val ''x''] (5::nat))) = 5"
proof -
  have all: "\<forall>C \<in> set [(''A'', pure_factory (createEagerFactory (wrapper ''A''))),
                 (''B'', pure_factory (createEagerFactory (wrapper ''B'')))].
               stateless (snd C :: (string, nat) stateful_factory)"
    by (simp add: stateless_pure_factory)
  have val: "fst (Nest_stateful (fst (nest snd fst None
                [(''A'', pure_factory (createEagerFactory (wrapper ''A''))),
                 (''B'', pure_factory (createEagerFactory (wrapper ''B'')))]
                ([] :: (string \<times> (string, nat) stateful_factory, string) trace)))
          [''children'' \<mapsto> Val ''x''] (0::nat)) = Val ''<A><B>x</B></A>''"
    by (simp add: Nest_stateful_def nest_factories reduceRight_def pure_factory_def
        wrapper_def text_of_def get_prop_def)
  from Nest_no_state_of_its_own [of snd fst None
      "[(''A'', pure_factory (createEagerFactory (wrapper ''A''))),
        (''B'', pure_factory (createEagerFactory (wrapper ''B'')))]"
      "[] :: (string \<times> (string, nat) stateful_factory, string) trace"
      "[''children'' \<mapsto> Val ''x'']" "5::nat" "0::nat"] all val
  show ?thesis
    by (simp add: stateless_pure_factory)
qed

subsection \<open>The diagnostic label\<close>

text \<open>
  C6. When \<^verbatim>\<open>NODE_ENV\<close> is not \<^verbatim>\<open>production\<close>, the nested factory carries a \<^verbatim>\<open>displayName\<close>: the
  display names of the inputs, in order and separated by a comma and a space, between
  \<^verbatim>\<open>nest(\<close> and \<^verbatim>\<open>)\<close>. For two inputs named \<open>A\<close> and \<open>B\<close> it is \<^verbatim>\<open>nest(A, B)\<close>.
\<close>

theorem nest_displayName_label:
  assumes "env \<noteq> Some ''production''"
  shows "displayName (fst (nest cef gdn env Cs t0)) =
           Some (''nest('' @ separated '', '' (map gdn Cs) @ '')'')
         \<and> (gdn A = ''A'' \<and> gdn B = ''B'' \<longrightarrow>
              displayName (fst (nest cef gdn env [A, B] t0)) = Some ''nest(A, B)'')"
  using assms by (simp add: nest_displayName join_separated)

theorem nest_displayName_label_witness:
  "None \<noteq> Some ''production''
   \<and> fst (''A'', wrapper ''A'') = ''A'' \<and> fst (''B'', wrapper ''B'') = ''B''
   \<and> displayName (fst (nest (createEagerFactory \<circ> snd) fst None
        [(''A'', wrapper ''A''), (''B'', wrapper ''B'')] ([] :: (named, string) trace)))
       = Some ''nest(A, B)''"
  using nest_displayName_label [of None "createEagerFactory \<circ> snd" fst
      "[(''A'', wrapper ''A''), (''B'', wrapper ''B'')]" "[] :: (named, string) trace"
      "(''A'', wrapper ''A'')" "(''B'', wrapper ''B'')"]
  by simp

text \<open>
  C10. When \<^verbatim>\<open>NODE_ENV\<close> is not \<^verbatim>\<open>production\<close>, \<open>nest()\<close> still sets the label, and the label is
  \<^verbatim>\<open>nest()\<close>.
\<close>

theorem nest_empty_displayName:
  assumes "env \<noteq> Some ''production''"
  shows "displayName (fst (nest cef gdn env [] t0)) = Some ''nest()''"
  using assms by (simp add: nest_displayName join_Nil)

theorem nest_empty_displayName_witness:
  "None \<noteq> Some ''production'' \<and>
   displayName (fst (nest (createEagerFactory \<circ> snd) fst None [] ([] :: (named, string) trace)))
     = Some ''nest()''"
  using nest_empty_displayName [of None "createEagerFactory \<circ> snd" fst
      "[] :: (named, string) trace"]
  by simp

text \<open>
  C8. The value of \<^verbatim>\<open>NODE_ENV\<close> decides the label and nothing else: for any two values of it
  the nested factories built from the same inputs return the same value and make the same
  factory calls on every argument, and they are equal as objects up to \<^verbatim>\<open>displayName\<close>. When
  \<^verbatim>\<open>NODE_ENV\<close> is \<^verbatim>\<open>production\<close>, no label is set and \<^verbatim>\<open>getDisplayName\<close> is not called.
\<close>

theorem build_mode_only_label:
  "Nest (fst (nest cef gdn env1 Cs t0)) arg t = Nest (fst (nest cef gdn env2 Cs t0)) arg t
   \<and> fst (nest cef gdn env1 Cs t0) =
       (fst (nest cef gdn env2 Cs t0))
         \<lparr>displayName := displayName (fst (nest cef gdn env1 Cs t0))\<rparr>
   \<and> displayName (fst (nest cef gdn (Some ''production'') Cs t0)) = None
   \<and> snd (nest cef gdn (Some ''production'') Cs t0) = t0 @ map CreateEagerFactory Cs"
  by (simp add: Nest_eq nest_factories nest_displayName nest_trace NestFn.equality)

end
